theory Spec2Isabelle
  imports Main "HOL-Library.Word"
begin

section \<open>The index-file reader \<^verbatim>\<open>bin/print_idx_file.py\<close>\<close>

text \<open>
  The script opens a file in binary mode, reads it in chunks of eight bytes, unpacks each
  full chunk as two little-endian unsigned 32-bit integers and prints them. The model
  below follows the script statement by statement: the file object is a byte sequence
  with a read cursor, \<^verbatim>\<open>print\<close> appends a line to the standard output, an exception is
  a value, and the \<^verbatim>\<open>while True\<close> loop is a partial function, so that a run that never
  returns is the value \<open>None\<close>.
\<close>

subsection \<open>Bytes, exceptions, files\<close>

type_synonym byte = "8 word"

datatype exn =
    FileNotFoundError
  | PermissionError
  | IsADirectoryError
  | NameError string
  | IndexError
  | StructError

text \<open>What a path names: nothing at all, a regular file with its bytes, a directory, or a
  file the process may not read.\<close>

datatype entry = RegularFile "byte list" | Directory | Unreadable

type_synonym filesystem = "string \<rightharpoonup> entry"

text \<open>The object returned by \<^verbatim>\<open>open(file_path, "rb")\<close>: the bytes and the cursor.\<close>

record file_obj =
  content :: "byte list"
  pos :: nat

definition open_rb :: "filesystem \<Rightarrow> string \<Rightarrow> exn + file_obj" where
  "open_rb fs file_path =
     (case fs file_path of
        None \<Rightarrow> Inl FileNotFoundError
      | Some (RegularFile bs) \<Rightarrow> Inr \<lparr>content = bs, pos = 0\<rparr>
      | Some Directory \<Rightarrow> Inl IsADirectoryError
      | Some Unreadable \<Rightarrow> Inl PermissionError)"

text \<open>\<^verbatim>\<open>file.read(n)\<close> on a regular file: the next \<open>n\<close> bytes, fewer at the end of the
  file, none once the cursor is at the end; the cursor moves past what was returned.\<close>

definition file_read :: "nat \<Rightarrow> file_obj \<Rightarrow> byte list \<times> file_obj" where
  "file_read n file =
     (let chunk = take n (drop (pos file) (content file))
      in (chunk, file\<lparr>pos := pos file + length chunk\<rparr>))"

subsection \<open>\<^verbatim>\<open>struct.unpack("<II", chunk)\<close>\<close>

text \<open>Little-endian: the first byte is the least significant one. Python integers are
  unbounded, hence \<open>int\<close>.\<close>

definition le_u32 :: "byte list \<Rightarrow> int" where
  "le_u32 bs = foldr (\<lambda>b acc. uint b + 256 * acc) bs 0"

definition struct_unpack_II :: "byte list \<Rightarrow> exn + int \<times> int" where
  "struct_unpack_II chunk =
     (if length chunk \<noteq> 8 then Inl StructError
      else Inr (le_u32 (take 4 chunk), le_u32 (drop 4 chunk)))"

subsection \<open>Formatting: \<^verbatim>\<open>str\<close> of an integer, \<^verbatim>\<open>repr\<close> of a bytes object\<close>

definition digit_char :: "nat \<Rightarrow> char" where
  "digit_char d = ''0123456789abcdef'' ! d"

function str_nat :: "nat \<Rightarrow> string" where
  "str_nat n = (if n < 10 then [digit_char n] else str_nat (n div 10) @ [digit_char (n mod 10)])"
  by pat_completeness auto
termination
  by (relation "measure id") auto

definition str_int :: "int \<Rightarrow> string" where
  "str_int i = (if i < 0 then CHR ''-'' # str_nat (nat (- i)) else str_nat (nat i))"

text \<open>\<^verbatim>\<open>repr(b)\<close> for bytes: the quote is \<^verbatim>\<open>'\<close> unless the bytes hold a \<^verbatim>\<open>'\<close> and no
  \<^verbatim>\<open>"\<close>; the quote and the backslash are escaped, tab, newline and carriage return have
  their letter escapes, every other byte outside the printable ASCII range is written
  \<^verbatim>\<open>\xhh\<close> with lower-case hexadecimal digits.\<close>

definition apostrophe :: char where
  "apostrophe = char_of (39 :: nat)"

definition repr_quote :: "byte list \<Rightarrow> char" where
  "repr_quote bs = (if 39 \<in> set bs \<and> 34 \<notin> set bs then CHR 0x22 else apostrophe)"

definition repr_byte :: "char \<Rightarrow> byte \<Rightarrow> string" where
  "repr_byte quote c =
     (if char_of (unat c) = quote \<or> c = 92 then [CHR 0x5C, char_of (unat c)]
      else if c = 9 then [CHR 0x5C, CHR ''t'']
      else if c = 10 then [CHR 0x5C, CHR ''n'']
      else if c = 13 then [CHR 0x5C, CHR ''r'']
      else if c < 32 \<or> 127 \<le> c then
        [CHR 0x5C, CHR ''x'', digit_char (unat c div 16), digit_char (unat c mod 16)]
      else [char_of (unat c)])"

definition bytes_repr :: "byte list \<Rightarrow> string" where
  "bytes_repr bs =
     (let quote = repr_quote bs
      in CHR ''b'' # quote # concat (map (repr_byte quote) bs) @ [quote])"

subsection \<open>\<^verbatim>\<open>print_u32_values\<close>\<close>

text \<open>A computation yields the lines it has printed and either the exception it raised
  or its value.\<close>

type_synonym 'a io = "string list \<times> (exn + 'a)"

text \<open>The body of \<^verbatim>\<open>while True\<close>, with the lines printed so far.\<close>

partial_function (option) read_loop :: "file_obj \<Rightarrow> string list \<Rightarrow> unit io option" where
  "read_loop file out =
     (case file_read 8 file of (chunk, file') \<Rightarrow>
        if chunk = [] then Some (out, Inr ())
        else if length chunk = 8 then
          (case struct_unpack_II chunk of
             Inl e \<Rightarrow> Some (out, Inl e)
           | Inr (first_u32, last_u32) \<Rightarrow>
               read_loop file' (out @ [str_int first_u32 @ '' : '' @ str_int last_u32]))
        else read_loop file' (out @ [''Incomplete chunk: '' @ bytes_repr chunk]))"

text \<open>The clause \<^verbatim>\<open>except FileNotFoundError\<close>: it prints and swallows that exception and
  lets every other one pass.\<close>

definition except_FileNotFoundError :: "string \<Rightarrow> unit io \<Rightarrow> unit io" where
  "except_FileNotFoundError file_path r =
     (case r of
        (out, Inl FileNotFoundError) \<Rightarrow>
          (out @ [''Error: File '' @ [apostrophe] @ file_path @ [apostrophe] @ '' not found''], Inr ())
      | _ \<Rightarrow> r)"

definition print_u32_values :: "filesystem \<Rightarrow> string \<Rightarrow> unit io option" where
  "print_u32_values fs file_path =
     map_option (except_FileNotFoundError file_path)
       (case open_rb fs file_path of
          Inl e \<Rightarrow> Some ([], Inl e)
        | Inr file \<Rightarrow> read_loop file [])"

subsection \<open>The script body\<close>

text \<open>The names bound at module level when the \<^verbatim>\<open>__main__\<close> block runs: the two imports
  and the function.\<close>

definition module_globals :: "string list" where
  "module_globals = [''sys'', ''struct'', ''print_u32_values'']"

definition load_name :: "string \<Rightarrow> exn + unit" where
  "load_name name = (if name \<in> set module_globals then Inr () else Inl (NameError name))"

text \<open>How the process ends: the script ran to its end, called \<^verbatim>\<open>sys.exit\<close>, or an
  exception reached the top level (the interpreter prints a traceback on the error stream
  and exits with status 1).\<close>

datatype outcome = Returned | SysExit int | Uncaught exn

fun exit_status :: "outcome \<Rightarrow> int" where
  "exit_status Returned = 0"
| "exit_status (SysExit n) = n"
| "exit_status (Uncaught e) = 1"

definition main :: "filesystem \<Rightarrow> string list \<Rightarrow> (string list \<times> outcome) option" where
  "main fs argv =
     (if length argv \<noteq> 2 then
        (case load_name ''os'' of
           Inl e \<Rightarrow> Some ([], Uncaught e)
         | Inr _ \<Rightarrow>
            (case argv of
               [] \<Rightarrow> Some ([], Uncaught IndexError)
             | script # _ \<Rightarrow> Some ([''Usage: {script_name} <file_name>''], SysExit 1)))
      else
        (case print_u32_values fs (argv ! 1) of
           None \<Rightarrow> None
         | Some (out, Inl e) \<Rightarrow> Some (out, Uncaught e)
         | Some (out, Inr _) \<Rightarrow> Some (out, Returned)))"

subsection \<open>The lines of a report\<close>

text \<open>Names for the two kinds of line the loop prints, used to state what it computes.\<close>

definition record_line :: "byte list \<Rightarrow> string" where
  "record_line chunk = str_int (le_u32 (take 4 chunk)) @ '' : '' @ str_int (le_u32 (drop 4 chunk))"

definition incomplete_line :: "byte list \<Rightarrow> string" where
  "incomplete_line chunk = ''Incomplete chunk: '' @ bytes_repr chunk"

definition tail_line :: "byte list \<Rightarrow> string list" where
  "tail_line rest = (if rest = [] then [] else [incomplete_line rest])"

subsection \<open>What the caller of the script observes\<close>

text \<open>The lines on the standard output and the exit status of the process.\<close>

definition script_run :: "filesystem \<Rightarrow> string list \<Rightarrow> (string list \<times> int) option" where
  "script_run fs argv = map_option (\<lambda>(out, oc). (out, exit_status oc)) (main fs argv)"

subsection \<open>Writing index records\<close>

text \<open>The script only reads. The writer below is the format description's record
  layout taken literally (bytes 0 to 3 hold \<open>first\<close>, bytes 4 to 7 hold \<open>last\<close>, each an
  unsigned 32-bit integer with its least significant byte first); it serves to state the
  round trip and is no part of the script.\<close>

definition spec_pack_u32 :: "32 word \<Rightarrow> byte list" where
  "spec_pack_u32 w = [ucast w, ucast (drop_bit 8 w), ucast (drop_bit 16 w), ucast (drop_bit 24 w)]"

definition spec_pack_record :: "32 word \<times> 32 word \<Rightarrow> byte list" where
  "spec_pack_record r = spec_pack_u32 (fst r) @ spec_pack_u32 (snd r)"

section \<open>The read loop\<close>

declare str_nat.simps [simp del]

text \<open>One pass through the loop body in each of its three cases: nothing left, a full
  chunk, a short last chunk. After a short chunk the cursor is at the end of the file, so
  the read that follows returns no bytes.\<close>

lemma read_loop_eof:
  assumes "length (content file) \<le> pos file"
  shows "read_loop file out = Some (out, Inr ())"
  using assms by (subst read_loop.simps) (simp add: file_read_def)

lemma read_loop_full:
  assumes "pos file + 8 \<le> length (content file)"
  shows "read_loop file out =
         read_loop (file\<lparr>pos := pos file + 8\<rparr>)
           (out @ [record_line (take 8 (drop (pos file) (content file)))])"
proof -
  define chunk where "chunk = take 8 (drop (pos file) (content file))"
  have len: "length chunk = 8"
    using assms by (simp add: chunk_def)
  then have ne: "chunk \<noteq> []"
    by auto
  have fr: "file_read 8 file = (chunk, file\<lparr>pos := pos file + 8\<rparr>)"
    using len by (simp add: file_read_def Let_def chunk_def)
  have "read_loop file out = read_loop (file\<lparr>pos := pos file + 8\<rparr>) (out @ [record_line chunk])"
    by (subst read_loop.simps) (simp add: fr len ne struct_unpack_II_def record_line_def)
  then show ?thesis by (simp add: chunk_def)
qed

lemma read_loop_partial:
  assumes "pos file < length (content file)" and "length (content file) < pos file + 8"
  shows "read_loop file out =
         Some (out @ [incomplete_line (drop (pos file) (content file))], Inr ())"
proof -
  define rest where "rest = drop (pos file) (content file)"
  define file' where "file' = file\<lparr>pos := pos file + length rest\<rparr>"
  have fr: "file_read 8 file = (rest, file')"
    using assms by (simp add: file_read_def Let_def rest_def file'_def)
  have ne: "rest \<noteq> []" using assms by (simp add: rest_def)
  have len: "length rest \<noteq> 8" using assms by (simp add: rest_def)
  have step: "read_loop file out = read_loop file' (out @ [incomplete_line rest])"
    by (subst read_loop.simps) (simp add: fr ne len incomplete_line_def)
  have "length (content file') \<le> pos file'"
    using assms by (simp add: file'_def rest_def)
  then have "read_loop file' (out @ [incomplete_line rest]) = Some (out @ [incomplete_line rest], Inr ())"
    by (rule read_loop_eof)
  with step show ?thesis by (simp add: rest_def)
qed

lemma read_loop_records:
  assumes "pos file + 8 * n \<le> length (content file)"
  shows "read_loop file out =
         read_loop (file\<lparr>pos := pos file + 8 * n\<rparr>)
           (out @ map (\<lambda>k. record_line (take 8 (drop (pos file + 8 * k) (content file)))) [0..<n])"
  using assms
proof (induction n)
  case 0
  then show ?case by simp
next
  case (Suc n)
  define file' where "file' = file\<lparr>pos := pos file + 8 * n\<rparr>"
  define out' where
    "out' = out @ map (\<lambda>k. record_line (take 8 (drop (pos file + 8 * k) (content file)))) [0..<n]"
  have "pos file' + 8 \<le> length (content file')"
    using Suc.prems by (simp add: file'_def)
  then have a: "read_loop file' out' =
      read_loop (file'\<lparr>pos := pos file' + 8\<rparr>)
        (out' @ [record_line (take 8 (drop (pos file') (content file')))])"
    by (rule read_loop_full)
  have b: "read_loop file out = read_loop file' out'"
    using Suc by (simp add: file'_def out'_def)
  have c: "file'\<lparr>pos := pos file' + 8\<rparr> = file\<lparr>pos := pos file + 8 * Suc n\<rparr>"
    by (simp add: file'_def)
  have d: "out' @ [record_line (take 8 (drop (pos file') (content file')))] =
      out @ map (\<lambda>k. record_line (take 8 (drop (pos file + 8 * k) (content file)))) [0..<Suc n]"
    by (simp add: file'_def out'_def)
  show ?case
    by (simp only: b a c d)
qed

lemma read_loop_from:
  assumes "pos file \<le> length (content file)"
  defines "n \<equiv> (length (content file) - pos file) div 8"
  shows "read_loop file out =
         Some (out @ map (\<lambda>k. record_line (take 8 (drop (pos file + 8 * k) (content file)))) [0..<n]
                 @ tail_line (drop (pos file + 8 * n) (content file)), Inr ())"
proof -
  define file' where "file' = file\<lparr>pos := pos file + 8 * n\<rparr>"
  define out' where
    "out' = out @ map (\<lambda>k. record_line (take 8 (drop (pos file + 8 * k) (content file)))) [0..<n]"
  have le: "pos file + 8 * n \<le> length (content file)"
    using assms by (simp add: n_def)
  have lt: "length (content file) < pos file + 8 * n + 8"
    using assms by (simp add: n_def)
  have run: "read_loop file out = read_loop file' out'"
    unfolding file'_def out'_def using le by (rule read_loop_records)
  show ?thesis
  proof (cases "pos file + 8 * n = length (content file)")
    case True
    then have "read_loop file' out' = Some (out', Inr ())"
      by (intro read_loop_eof) (simp add: file'_def)
    with run True show ?thesis by (simp add: out'_def tail_line_def)
  next
    case False
    with le have "pos file' < length (content file')" by (simp add: file'_def)
    moreover from lt have "length (content file') < pos file' + 8" by (simp add: file'_def)
    ultimately have "read_loop file' out' =
        Some (out' @ [incomplete_line (drop (pos file') (content file'))], Inr ())"
      by (rule read_loop_partial)
    with run False le show ?thesis by (simp add: out'_def file'_def tail_line_def)
  qed
qed

section \<open>The reader on a regular file\<close>

lemma print_u32_values_regular:
  assumes "fs file_path = Some (RegularFile bs)"
  shows "print_u32_values fs file_path =
         Some (map (\<lambda>k. record_line (take 8 (drop (8 * k) bs))) [0..<length bs div 8]
                 @ tail_line (drop (8 * (length bs div 8)) bs), Inr ())"
proof -
  have "read_loop \<lparr>content = bs, pos = 0\<rparr> [] =
        Some (map (\<lambda>k. record_line (take 8 (drop (8 * k) bs))) [0..<length bs div 8]
                 @ tail_line (drop (8 * (length bs div 8)) bs), Inr ())"
    using read_loop_from [of "\<lparr>content = bs, pos = 0\<rparr>" "[]"] by simp
  then show ?thesis
    using assms by (simp add: print_u32_values_def open_rb_def except_FileNotFoundError_def)
qed

lemma record_line_at:
  "record_line (take 8 (drop (8 * k) bs)) =
   str_int (le_u32 (take 4 (drop (8 * k) bs))) @ '' : '' @
   str_int (le_u32 (take 4 (drop (8 * k + 4) bs)))"
  by (simp add: record_line_def drop_take add.commute)

lemma full_length_no_tail:
  assumes "length bs mod 8 = 0"
  shows "tail_line (drop (8 * (length bs div 8)) bs) = []"
proof -
  from assms have "8 * (length bs div 8) = length bs"
    by (simp add: dvd_mult_div_cancel mod_0_imp_dvd)
  then show ?thesis by (simp add: tail_line_def)
qed

section \<open>Decimal digits and the record writer\<close>

lemma str_nat_digit: "n < 10 \<Longrightarrow> str_nat n = [digit_char n]"
  by (subst str_nat.simps) simp

lemma str_nat_more: "10 \<le> n \<Longrightarrow> str_nat n = str_nat (n div 10) @ [digit_char (n mod 10)]"
  by (subst str_nat.simps) simp

lemma base256_digits:
  fixes x :: int
  assumes "0 \<le> x" and "x < 4294967296"
  shows "x mod 256 + (256 * (x div 256 mod 256) + (65536 * (x div 65536 mod 256)
           + 16777216 * (x div 16777216 mod 256))) = x"
proof -
  define a where "a = x div 256"
  define b where "b = a div 256"
  define c where "c = b div 256"
  have xb: "x div 65536 = b"
    unfolding a_def b_def by (simp add: zdiv_zmult2_eq [symmetric])
  have xc: "x div 16777216 = c"
    unfolding a_def b_def c_def by (simp add: zdiv_zmult2_eq [symmetric])
  have "0 \<le> c" "c < 256"
    using assms unfolding xc [symmetric] by simp_all
  then have cm: "c mod 256 = c" by simp
  have 1: "x = x mod 256 + 256 * a" unfolding a_def by simp
  have 2: "a = a mod 256 + 256 * b" unfolding b_def by simp
  have 3: "b = b mod 256 + 256 * c" unfolding c_def by simp
  have "x mod 256 + (256 * (a mod 256) + (65536 * (b mod 256) + 16777216 * c)) = x"
    using 1 2 3 by linarith
  then show ?thesis
    by (simp add: xb xc cm a_def [symmetric])
qed

lemma uint_byte_of_u32:
  fixes w :: "32 word"
  shows "uint (ucast (drop_bit k w) :: byte) = (uint w div 2 ^ k) mod 256"
proof -
  have "uint (ucast (drop_bit k w) :: byte) = take_bit 8 (drop_bit k (take_bit 32 (uint w)))"
    by (simp only: unsigned_ucast_eq unsigned_drop_bit_eq) simp
  also have "take_bit 32 (uint w) = uint w"
    using uint_bounded [of w] by (simp add: take_bit_int_eq_self)
  finally show ?thesis
    by (simp add: take_bit_eq_mod drop_bit_eq_div)
qed

lemma le_u32_pack: "le_u32 (spec_pack_u32 w) = uint w"
proof -
  have b0: "uint (ucast w :: byte) = uint w mod 256"
    using uint_byte_of_u32 [of 0 w] by simp
  have "le_u32 (spec_pack_u32 w) =
        uint w mod 256 + (256 * (uint w div 256 mod 256) + (65536 * (uint w div 65536 mod 256)
           + 16777216 * (uint w div 16777216 mod 256)))"
    by (simp add: le_u32_def spec_pack_u32_def uint_byte_of_u32 b0)
  also have "\<dots> = uint w"
  proof (rule base256_digits)
    show "0 \<le> uint w" by simp
    show "uint w < 4294967296" using uint_bounded [of w] by simp
  qed
  finally show ?thesis .
qed

lemma unpack_pack_record:
  "struct_unpack_II (spec_pack_record (a, b)) = Inr (uint a, uint b)"
proof -
  have "length (spec_pack_u32 a) = 4" "length (spec_pack_u32 b) = 4"
    by (simp_all add: spec_pack_u32_def)
  then show ?thesis
    by (simp add: struct_unpack_II_def spec_pack_record_def le_u32_pack)
qed

lemma record_line_pack:
  "record_line (spec_pack_record (a, b)) = str_int (uint a) @ '' : '' @ str_int (uint b)"
proof -
  have "length (spec_pack_u32 a) = 4"
    by (simp add: spec_pack_u32_def)
  then show ?thesis
    by (simp add: record_line_def spec_pack_record_def le_u32_pack)
qed

lemma read_loop_packed:
  assumes "content f = pre @ concat (map spec_pack_record ps)" and "pos f = length pre"
  shows "read_loop f out =
         Some (out @ map (\<lambda>(a, b). str_int (uint a) @ '' : '' @ str_int (uint b)) ps, Inr ())"
  using assms
proof (induction ps arbitrary: f pre out)
  case Nil
  then show ?case by (simp add: read_loop_eof)
next
  case (Cons p ps)
  obtain a b where p: "p = (a, b)" by (cases p)
  have len: "length (spec_pack_record p) = 8"
    by (simp add: spec_pack_record_def spec_pack_u32_def)
  define f' where "f' = f\<lparr>pos := pos f + 8\<rparr>"
  have chunk: "take 8 (drop (pos f) (content f)) = spec_pack_record p"
    using Cons.prems len by simp
  have "pos f + 8 \<le> length (content f)"
    using Cons.prems len by simp
  then have step: "read_loop f out = read_loop f' (out @ [record_line (spec_pack_record p)])"
    unfolding f'_def chunk [symmetric] by (rule read_loop_full)
  have "content f' = (pre @ spec_pack_record p) @ concat (map spec_pack_record ps)"
    and "pos f' = length (pre @ spec_pack_record p)"
    using Cons.prems len by (simp_all add: f'_def)
  then have "read_loop f' (out @ [record_line (spec_pack_record p)]) =
      Some ((out @ [record_line (spec_pack_record p)]) @
            map (\<lambda>(a, b). str_int (uint a) @ '' : '' @ str_int (uint b)) ps, Inr ())"
    by (rule Cons.IH)
  with step show ?case
    by (simp add: p record_line_pack)
qed

text \<open>The decimal text of a number determines the number, and a printed record line
  determines the two values it was printed from.\<close>

lemma digit_char_inj:
  assumes "a < 10" and "b < 10" and "digit_char a = digit_char b"
  shows "a = b"
proof -
  have "distinct ''0123456789abcdef''" by simp
  moreover have "a < length ''0123456789abcdef''" "b < length ''0123456789abcdef''"
    using assms by simp_all
  ultimately show ?thesis
    using assms(3) unfolding digit_char_def by (simp only: nth_eq_iff_index_eq)
qed

lemma digit_char_not_space:
  assumes "d < 10"
  shows "digit_char d \<noteq> CHR '' ''"
proof -
  have "digit_char d \<in> set ''0123456789abcdef''"
    unfolding digit_char_def using assms by (intro nth_mem) simp
  then show ?thesis by auto
qed

lemma str_nat_not_Nil: "str_nat n \<noteq> []"
  by (subst str_nat.simps) simp

lemma str_nat_no_space: "CHR '' '' \<notin> set (str_nat n)"
proof (induction n rule: str_nat.induct)
  case (1 n)
  show ?case
  proof (cases "n < 10")
    case True
    then show ?thesis
      using digit_char_not_space [of n] by (simp add: str_nat_digit)
  next
    case False
    then have "CHR '' '' \<notin> set (str_nat (n div 10))"
      by (rule "1.IH")
    moreover have "digit_char (n mod 10) \<noteq> CHR '' ''"
      by (rule digit_char_not_space) simp
    ultimately show ?thesis
      using False by (simp add: str_nat_more)
  qed
qed

lemma str_nat_inj:
  assumes "str_nat m = str_nat n"
  shows "m = n"
  using assms
proof (induction m arbitrary: n rule: less_induct)
  case (less m)
  have last_m: "last (str_nat m) = digit_char (m mod 10)"
    by (cases "m < 10") (simp_all add: str_nat_digit str_nat_more)
  have last_n: "last (str_nat n) = digit_char (n mod 10)"
    by (cases "n < 10") (simp_all add: str_nat_digit str_nat_more)
  have "digit_char (m mod 10) = digit_char (n mod 10)"
    using less.prems last_m last_n by simp
  then have units: "m mod 10 = n mod 10"
    by (intro digit_char_inj) simp_all
  have but_m: "butlast (str_nat m) = (if m < 10 then [] else str_nat (m div 10))"
    by (simp add: str_nat_digit str_nat_more)
  have but_n: "butlast (str_nat n) = (if n < 10 then [] else str_nat (n div 10))"
    by (simp add: str_nat_digit str_nat_more)
  have front: "(if m < 10 then [] else str_nat (m div 10)) = (if n < 10 then [] else str_nat (n div 10))"
    using less.prems but_m but_n by simp
  show ?case
  proof (cases "m < 10")
    case True
    with front have "n < 10"
      using str_nat_not_Nil [of "n div 10"] by (auto split: if_splits)
    with True units show ?thesis by simp
  next
    case False
    with front have n10: "\<not> n < 10"
      using str_nat_not_Nil [of "m div 10"] by (auto split: if_splits)
    with False front have "str_nat (m div 10) = str_nat (n div 10)" by simp
    moreover have "m div 10 < m" using False by simp
    ultimately have tens: "m div 10 = n div 10"
      by (rule less.IH [rotated])
    have "m = 10 * (m div 10) + m mod 10" by simp
    also have "\<dots> = 10 * (n div 10) + n mod 10" using tens units by simp
    also have "\<dots> = n" by simp
    finally show ?thesis .
  qed
qed

lemma split_at_first:
  assumes "x \<notin> set xs" and "x \<notin> set xs'" and "xs @ x # ys = xs' @ x # ys'"
  shows "xs = xs' \<and> ys = ys'"
proof -
  have "takeWhile (\<lambda>c. c \<noteq> x) (xs @ x # ys) = xs"
    using assms(1) by (auto simp: takeWhile_tail)
  moreover have "takeWhile (\<lambda>c. c \<noteq> x) (xs' @ x # ys') = xs'"
    using assms(2) by (auto simp: takeWhile_tail)
  ultimately have "xs = xs'"
    using assms(3) by simp
  with assms(3) show ?thesis by simp
qed

lemma record_text_inj:
  fixes a b c d :: "32 word"
  assumes "str_int (uint a) @ '' : '' @ str_int (uint b) = str_int (uint c) @ '' : '' @ str_int (uint d)"
  shows "a = c \<and> b = d"
proof -
  have pos: "\<And>w :: 32 word. str_int (uint w) = str_nat (unat w)"
    by (simp add: str_int_def)
  from assms have eq: "str_nat (unat a) @ CHR '' '' # ('': '' @ str_nat (unat b))
      = str_nat (unat c) @ CHR '' '' # ('': '' @ str_nat (unat d))"
    by (simp add: pos)
  have "str_nat (unat a) = str_nat (unat c) \<and> '': '' @ str_nat (unat b) = '': '' @ str_nat (unat d)"
    using str_nat_no_space [of "unat a"] str_nat_no_space [of "unat c"] eq
    by (rule split_at_first)
  then have "unat a = unat c" "unat b = unat d"
    by (auto dest: str_nat_inj)
  then show ?thesis
    by (simp add: word_unat_eq_iff)
qed

lemma record_text_inj_on:
  "inj (\<lambda>(a :: 32 word, b :: 32 word). str_int (uint a) @ '' : '' @ str_int (uint b))"
proof (rule injI)
  fix p q :: "32 word \<times> 32 word"
  assume same: "(\<lambda>(a, b). str_int (uint a) @ '' : '' @ str_int (uint b)) p
              = (\<lambda>(a, b). str_int (uint a) @ '' : '' @ str_int (uint b)) q"
  obtain a b where p: "p = (a, b)" by (cases p)
  obtain c d where q: "q = (c, d)" by (cases q)
  from same have "str_int (uint a) @ '' : '' @ str_int (uint b)
                = str_int (uint c) @ '' : '' @ str_int (uint d)"
    unfolding p q by (simp only: prod.case)
  then have "a = c \<and> b = d"
    by (rule record_text_inj)
  then show "p = q"
    by (simp add: p q)
qed

section \<open>The script as a whole\<close>

lemma main_one_path:
  "main fs [script, file_path] =
     (case print_u32_values fs file_path of
        None \<Rightarrow> None
      | Some (out, Inl e) \<Rightarrow> Some (out, Uncaught e)
      | Some (out, Inr _) \<Rightarrow> Some (out, Returned))"
  by (simp add: main_def)

lemma print_u32_values_open_fails:
  assumes "open_rb fs file_path = Inl e"
  shows "print_u32_values fs file_path = Some (except_FileNotFoundError file_path ([], Inl e))"
  using assms by (simp add: print_u32_values_def)

lemma tail_line_cases:
  "tail_line (drop (8 * (length bs div 8)) bs) =
     (if length bs mod 8 = 0 then []
      else [''Incomplete chunk: '' @ bytes_repr (drop (8 * (length bs div 8)) bs)])"
proof -
  have "8 * (length bs div 8) + length bs mod 8 = length bs"
    by (rule mult_div_mod_eq)
  then have "length bs \<le> 8 * (length bs div 8) \<longleftrightarrow> length bs mod 8 = 0"
    by linarith
  then show ?thesis
    by (simp add: tail_line_def incomplete_line_def)
qed

lemma print_u32_values_lines:
  assumes "fs file_path = Some (RegularFile bs)"
  shows "print_u32_values fs file_path =
         Some (map (\<lambda>k. str_int (le_u32 (take 4 (drop (8 * k) bs))) @ '' : '' @
                         str_int (le_u32 (take 4 (drop (8 * k + 4) bs))))
                 [0..<length bs div 8]
               @ (if length bs mod 8 = 0 then []
                  else [''Incomplete chunk: '' @ bytes_repr (drop (8 * (length bs div 8)) bs)]),
               Inr ())"
  using assms print_u32_values_regular [of fs file_path bs]
  by (simp only: tail_line_cases record_line_at)

lemma script_run_returns:
  assumes "print_u32_values fs file_path = Some (out, Inr ())"
  shows "main fs [script, file_path] = Some (out, Returned)"
    and "script_run fs [script, file_path] = Some (out, 0)"
  using assms by (simp_all add: script_run_def main_one_path)

lemma usage_branch:
  assumes "length argv \<noteq> 2"
  shows "main fs argv = Some ([], Uncaught (NameError ''os''))"
  using assms by (simp add: main_def load_name_def module_globals_def)

text \<open>Rules that evaluate the formatting functions on concrete bytes.\<close>

lemmas eval_defs = le_u32_def str_int_def str_nat_digit str_nat_more digit_char_def upt_rec

lemmas repr_defs = bytes_repr_def repr_byte_def repr_quote_def apostrophe_def Let_def char_of_def bit_Suc_0_iff

section \<open>Complete records\<close>

text \<open>
  C1. A file whose length is a multiple of 8 makes the reader print exactly
  \<open>length div 8\<close> lines and nothing else; line \<open>k\<close> is \<open>first : last\<close>, where
  \<open>first\<close> is the little-endian value of bytes \<open>8k\<close> to \<open>8k+3\<close> and \<open>last\<close> that of
  bytes \<open>8k+4\<close> to \<open>8k+7\<close>, both in decimal; the lines come in file order and the
  function returns normally.
\<close>

theorem full_records_printed:
  assumes "fs file_path = Some (RegularFile bs)" and "length bs mod 8 = 0"
  shows "print_u32_values fs file_path =
         Some (map (\<lambda>k. str_int (le_u32 (take 4 (drop (8 * k) bs))) @ '' : '' @
                         str_int (le_u32 (take 4 (drop (8 * k + 4) bs))))
                 [0..<length bs div 8], Inr ())"
  using assms(1) print_u32_values_regular [of fs file_path bs] full_length_no_tail [OF assms(2)]
  by (simp add: record_line_at)

theorem full_records_printed_witness:
  "[''a.idx'' \<mapsto> RegularFile [255, 255, 255, 255, 0, 0, 0, 0, 1, 0, 0, 0, 1, 0, 0, 0]] ''a.idx''
     = Some (RegularFile [255, 255, 255, 255, 0, 0, 0, 0, 1, 0, 0, 0, 1, 0, 0, 0])
   \<and> length [255, 255, 255, 255, 0, 0, 0, 0, 1, 0, 0, 0, 1, 0, 0, 0 :: byte] mod 8 = 0
   \<and> print_u32_values
        [''a.idx'' \<mapsto> RegularFile [255, 255, 255, 255, 0, 0, 0, 0, 1, 0, 0, 0, 1, 0, 0, 0]] ''a.idx''
     = Some ([''4294967295 : 0'', ''1 : 1''], Inr ())"
  using full_records_printed
    [of "[''a.idx'' \<mapsto> RegularFile [255, 255, 255, 255, 0, 0, 0, 0, 1, 0, 0, 0, 1, 0, 0, 0]]"
        "''a.idx''" "[255, 255, 255, 255, 0, 0, 0, 0, 1, 0, 0, 0, 1, 0, 0, 0]"]
  by (simp add: eval_defs)

text \<open>
  C9. For a file of any length \<open>n\<close> the reader prints the lines of the first
  \<open>n div 8\<close> complete records, each once and in file order, and after them one
  \<open>Incomplete chunk\<close> line exactly when \<open>n mod 8\<close> is not zero; nothing else is
  printed and the function returns normally.
\<close>

theorem complete_records_then_one_diagnostic:
  assumes "fs file_path = Some (RegularFile bs)"
  shows "print_u32_values fs file_path =
         Some (map (\<lambda>k. str_int (le_u32 (take 4 (drop (8 * k) bs))) @ '' : '' @
                         str_int (le_u32 (take 4 (drop (8 * k + 4) bs))))
                 [0..<length bs div 8]
               @ (if length bs mod 8 = 0 then []
                  else [''Incomplete chunk: '' @ bytes_repr (drop (8 * (length bs div 8)) bs)]),
               Inr ())"
  by (rule print_u32_values_lines [of fs file_path bs, OF assms])

theorem complete_records_then_one_diagnostic_witness:
  "[''t.idx'' \<mapsto> RegularFile [1, 0, 0, 0, 2, 0, 0, 0, 65, 66]] ''t.idx''
     = Some (RegularFile [1, 0, 0, 0, 2, 0, 0, 0, 65, 66])
   \<and> print_u32_values [''t.idx'' \<mapsto> RegularFile [1, 0, 0, 0, 2, 0, 0, 0, 65, 66]] ''t.idx''
     = Some ([''1 : 2'', ''Incomplete chunk: b'' @ [CHR 0x27] @ ''AB'' @ [CHR 0x27]], Inr ())"
  using complete_records_then_one_diagnostic
    [of "[''t.idx'' \<mapsto> RegularFile [1, 0, 0, 0, 2, 0, 0, 0, 65, 66]]" "''t.idx''"
        "[1, 0, 0, 0, 2, 0, 0, 0, 65, 66]"]
  by (simp add: eval_defs repr_defs)

section \<open>Round trip\<close>

text \<open>
  C3. Writing a sequence of pairs of unsigned 32-bit integers as 8-byte little-endian
  records and running the reader on the concatenation prints the original pairs, one line
  each, in the original order; unpacking a packed record gives back its two values, and
  a printed line determines the pair it shows, so the output identifies the sequence.
\<close>

theorem packed_records_round_trip:
  assumes "fs file_path = Some (RegularFile (concat (map spec_pack_record ps)))"
  shows "print_u32_values fs file_path =
           Some (map (\<lambda>(a, b). str_int (uint a) @ '' : '' @ str_int (uint b)) ps, Inr ())
       \<and> map (\<lambda>r. struct_unpack_II (spec_pack_record r)) ps
           = map (\<lambda>(a, b). Inr (uint a, uint b)) ps
       \<and> inj (\<lambda>(a :: 32 word, b :: 32 word). str_int (uint a) @ '' : '' @ str_int (uint b))"
proof -
  have "read_loop \<lparr>content = concat (map spec_pack_record ps), pos = 0\<rparr> [] =
        Some ([] @ map (\<lambda>(a, b). str_int (uint a) @ '' : '' @ str_int (uint b)) ps, Inr ())"
    by (rule read_loop_packed [where pre = "[]"]) simp_all
  then have "print_u32_values fs file_path =
           Some (map (\<lambda>(a, b). str_int (uint a) @ '' : '' @ str_int (uint b)) ps, Inr ())"
    using assms by (simp add: print_u32_values_def open_rb_def except_FileNotFoundError_def)
  moreover have "map (\<lambda>r. struct_unpack_II (spec_pack_record r)) ps
           = map (\<lambda>(a, b). Inr (uint a, uint b)) ps"
    by (rule map_cong) (auto simp: unpack_pack_record)
  ultimately show ?thesis
    using record_text_inj_on by simp
qed

theorem packed_records_round_trip_witness:
  "[''a.idx'' \<mapsto> RegularFile (concat (map spec_pack_record [(4294967295, 0), (1, 1)]))] ''a.idx''
     = Some (RegularFile (concat (map spec_pack_record [(4294967295, 0), (1, 1)])))
   \<and> concat (map spec_pack_record [(4294967295, 0), (1, 1)])
     = [255, 255, 255, 255, 0, 0, 0, 0, 1, 0, 0, 0, 1, 0, 0, 0]
   \<and> print_u32_values
        [''a.idx'' \<mapsto> RegularFile (concat (map spec_pack_record [(4294967295, 0), (1, 1)]))] ''a.idx''
     = Some ([''4294967295 : 0'', ''1 : 1''], Inr ())"
  using packed_records_round_trip
    [of "[''a.idx'' \<mapsto> RegularFile (concat (map spec_pack_record [(4294967295, 0), (1, 1)]))]"
        "''a.idx''" "[(4294967295, 0), (1, 1)]"]
  by (simp add: eval_defs spec_pack_record_def spec_pack_u32_def)

section \<open>The empty file\<close>

text \<open>
  C8. On a file of 0 bytes the reader prints no line and the process exits with
  status 0.
\<close>

theorem empty_file_prints_nothing:
  assumes "fs file_path = Some (RegularFile [])"
  shows "print_u32_values fs file_path = Some ([], Inr ())
       \<and> script_run fs [script, file_path] = Some ([], 0)"
proof -
  have "print_u32_values fs file_path = Some ([], Inr ())"
    using print_u32_values_lines [of fs file_path "[]", OF assms] by simp
  then show ?thesis
    by (simp add: script_run_returns)
qed

theorem empty_file_prints_nothing_witness:
  "[''empty.idx'' \<mapsto> RegularFile []] ''empty.idx'' = Some (RegularFile [])
   \<and> print_u32_values [''empty.idx'' \<mapsto> RegularFile []] ''empty.idx'' = Some ([], Inr ())
   \<and> script_run [''empty.idx'' \<mapsto> RegularFile []] [''print_idx_file.py'', ''empty.idx'']
       = Some ([], 0)"
  using empty_file_prints_nothing
    [of "[''empty.idx'' \<mapsto> RegularFile []]" "''empty.idx''" "''print_idx_file.py''"]
  by simp

section \<open>A file that ends in a short chunk\<close>

text \<open>
  C2, as stated, says that the loop never returns once it has read a short last chunk.
  On a file of five bytes it does return, with the one diagnostic line printed.
\<close>

theorem short_tail_nontermination_counterexample:
  "print_u32_values [''t.idx'' \<mapsto> RegularFile [65, 66, 67, 68, 69]] ''t.idx'' \<noteq> None
   \<and> print_u32_values [''t.idx'' \<mapsto> RegularFile [65, 66, 67, 68, 69]] ''t.idx''
       = Some ([''Incomplete chunk: b'' @ [CHR 0x27] @ ''ABCDE'' @ [CHR 0x27]], Inr ())"
  using print_u32_values_lines
    [of "[''t.idx'' \<mapsto> RegularFile [65, 66, 67, 68, 69]]" "''t.idx''" "[65, 66, 67, 68, 69]"]
  by (simp add: eval_defs repr_defs)

text \<open>
  C2, amended. When the length of the file is not a multiple of 8, the read at the
  start of the short tail returns the \<open>length mod 8\<close> bytes that are left and moves the
  cursor to the end of the file; the loop prints one \<open>Incomplete chunk\<close> line with the
  \<^verbatim>\<open>repr\<close> of these bytes and continues; the read that follows returns no bytes, so the
  loop ends and the function returns normally.
\<close>

theorem short_tail_then_empty_read:
  assumes "fs file_path = Some (RegularFile bs)" and "length bs mod 8 \<noteq> 0"
  shows "file_read 8 \<lparr>content = bs, pos = 8 * (length bs div 8)\<rparr>
           = (drop (8 * (length bs div 8)) bs, \<lparr>content = bs, pos = length bs\<rparr>)
       \<and> length (drop (8 * (length bs div 8)) bs) = length bs mod 8
       \<and> file_read 8 \<lparr>content = bs, pos = length bs\<rparr> = ([], \<lparr>content = bs, pos = length bs\<rparr>)
       \<and> print_u32_values fs file_path =
           Some (map (\<lambda>k. str_int (le_u32 (take 4 (drop (8 * k) bs))) @ '' : '' @
                           str_int (le_u32 (take 4 (drop (8 * k + 4) bs))))
                   [0..<length bs div 8]
                 @ [''Incomplete chunk: '' @ bytes_repr (drop (8 * (length bs div 8)) bs)],
                 Inr ())"
proof -
  have split: "8 * (length bs div 8) + length bs mod 8 = length bs"
    by (rule mult_div_mod_eq)
  have short: "length bs mod 8 < 8"
    by simp
  have len: "length (drop (8 * (length bs div 8)) bs) = length bs mod 8"
  proof -
    have "length (drop (8 * (length bs div 8)) bs) = length bs - 8 * (length bs div 8)"
      by simp
    with split show ?thesis by linarith
  qed
  have "take 8 (drop (8 * (length bs div 8)) bs) = drop (8 * (length bs div 8)) bs"
    using len short by simp
  moreover have "8 * (length bs div 8) + length bs mod 8 = length bs"
    by (rule split)
  ultimately have first: "file_read 8 \<lparr>content = bs, pos = 8 * (length bs div 8)\<rparr>
           = (drop (8 * (length bs div 8)) bs, \<lparr>content = bs, pos = length bs\<rparr>)"
    by (simp add: file_read_def Let_def len)
  have second: "file_read 8 \<lparr>content = bs, pos = length bs\<rparr> = ([], \<lparr>content = bs, pos = length bs\<rparr>)"
    by (simp add: file_read_def)
  show ?thesis
    using first len second print_u32_values_lines [of fs file_path bs, OF assms(1)] assms(2)
    by simp
qed

theorem short_tail_then_empty_read_witness:
  "[''t.idx'' \<mapsto> RegularFile [1, 0, 0, 0, 2, 0, 0, 0, 65, 66]] ''t.idx''
     = Some (RegularFile [1, 0, 0, 0, 2, 0, 0, 0, 65, 66])
   \<and> length [1, 0, 0, 0, 2, 0, 0, 0, 65, 66 :: byte] mod 8 \<noteq> 0
   \<and> file_read 8 \<lparr>content = [1, 0, 0, 0, 2, 0, 0, 0, 65, 66], pos = 8\<rparr>
       = ([65, 66], \<lparr>content = [1, 0, 0, 0, 2, 0, 0, 0, 65, 66], pos = 10\<rparr>)
   \<and> file_read 8 \<lparr>content = [1, 0, 0, 0, 2, 0, 0, 0, 65, 66], pos = 10\<rparr>
       = ([], \<lparr>content = [1, 0, 0, 0, 2, 0, 0, 0, 65, 66], pos = 10\<rparr>)
   \<and> print_u32_values [''t.idx'' \<mapsto> RegularFile [1, 0, 0, 0, 2, 0, 0, 0, 65, 66]] ''t.idx''
       = Some ([''1 : 2'', ''Incomplete chunk: b'' @ [CHR 0x27] @ ''AB'' @ [CHR 0x27]], Inr ())"
  using short_tail_then_empty_read
    [of "[''t.idx'' \<mapsto> RegularFile [1, 0, 0, 0, 2, 0, 0, 0, 65, 66]]" "''t.idx''"
        "[1, 0, 0, 0, 2, 0, 0, 0, 65, 66]"]
  by (simp add: eval_defs repr_defs file_read_def)

text \<open>
  C4, as stated, says that a file with a short last chunk makes the program exit with a
  non-zero status and report the offset. On a file of five bytes the program prints the
  \<open>Incomplete chunk\<close> line and exits with status 0.
\<close>

theorem truncated_file_nonzero_exit_counterexample:
  "script_run [''t.idx'' \<mapsto> RegularFile [65, 66, 67, 68, 69]] [''print_idx_file.py'', ''t.idx'']
     = Some ([''Incomplete chunk: b'' @ [CHR 0x27] @ ''ABCDE'' @ [CHR 0x27]], 0)"
proof -
  have "print_u32_values [''t.idx'' \<mapsto> RegularFile [65, 66, 67, 68, 69]] ''t.idx''
       = Some ([''Incomplete chunk: b'' @ [CHR 0x27] @ ''ABCDE'' @ [CHR 0x27]], Inr ())"
    using print_u32_values_lines
      [of "[''t.idx'' \<mapsto> RegularFile [65, 66, 67, 68, 69]]" "''t.idx''" "[65, 66, 67, 68, 69]"]
    by (simp add: eval_defs repr_defs)
  then show ?thesis
    by (rule script_run_returns)
qed

text \<open>
  C4, amended. When the length of the file is not a multiple of 8, the program prints,
  after the lines of the complete records, the line \<open>Incomplete chunk: \<close> followed by
  the \<^verbatim>\<open>repr\<close> of the bytes left over (neither an offset nor a count), the loop ends, and
  the process exits with status 0.
\<close>

theorem truncated_file_reported_on_stdout:
  assumes "fs file_path = Some (RegularFile bs)" and "length bs mod 8 \<noteq> 0"
  shows "script_run fs [script, file_path] =
         Some (map (\<lambda>k. str_int (le_u32 (take 4 (drop (8 * k) bs))) @ '' : '' @
                         str_int (le_u32 (take 4 (drop (8 * k + 4) bs))))
                 [0..<length bs div 8]
               @ [''Incomplete chunk: '' @ bytes_repr (drop (8 * (length bs div 8)) bs)], 0)"
proof -
  have "print_u32_values fs file_path =
         Some (map (\<lambda>k. str_int (le_u32 (take 4 (drop (8 * k) bs))) @ '' : '' @
                         str_int (le_u32 (take 4 (drop (8 * k + 4) bs))))
                 [0..<length bs div 8]
               @ [''Incomplete chunk: '' @ bytes_repr (drop (8 * (length bs div 8)) bs)], Inr ())"
    using print_u32_values_lines [of fs file_path bs, OF assms(1)] assms(2) by simp
  then show ?thesis
    by (rule script_run_returns)
qed

theorem truncated_file_reported_on_stdout_witness:
  "[''t.idx'' \<mapsto> RegularFile [1, 0, 0, 0, 2, 0, 0, 0, 65, 66, 67]] ''t.idx''
     = Some (RegularFile [1, 0, 0, 0, 2, 0, 0, 0, 65, 66, 67])
   \<and> length [1, 0, 0, 0, 2, 0, 0, 0, 65, 66, 67 :: byte] mod 8 \<noteq> 0
   \<and> script_run [''t.idx'' \<mapsto> RegularFile [1, 0, 0, 0, 2, 0, 0, 0, 65, 66, 67]]
        [''print_idx_file.py'', ''t.idx'']
       = Some ([''1 : 2'', ''Incomplete chunk: b'' @ [CHR 0x27] @ ''ABC'' @ [CHR 0x27]], 0)"
  using truncated_file_reported_on_stdout
    [of "[''t.idx'' \<mapsto> RegularFile [1, 0, 0, 0, 2, 0, 0, 0, 65, 66, 67]]" "''t.idx''"
        "[1, 0, 0, 0, 2, 0, 0, 0, 65, 66, 67]" "''print_idx_file.py''"]
  by (simp add: eval_defs repr_defs)

section \<open>A path that cannot be opened\<close>

text \<open>
  C5, as stated, says that a path that names no file makes the program exit with a
  non-zero status. The exception is caught inside \<^verbatim>\<open>print_u32_values\<close>, the message goes to
  the standard output and the script runs to its end: the exit status is 0.
\<close>

theorem missing_file_nonzero_exit_counterexample:
  "script_run Map.empty [''print_idx_file.py'', ''missing.idx'']
     = Some ([''Error: File '' @ [CHR 0x27] @ ''missing.idx'' @ [CHR 0x27] @ '' not found''], 0)"
  by (simp add: script_run_def main_one_path print_u32_values_def open_rb_def
      except_FileNotFoundError_def apostrophe_def char_of_def bit_Suc_0_iff)

text \<open>
  C5, amended. When \<^verbatim>\<open>open\<close> fails, no record line is printed. If the failure is
  \<^verbatim>\<open>FileNotFoundError\<close> the program prints the line \<^verbatim>\<open>Error: File '<path>' not found\<close> on the
  standard output and exits with status 0. Any other failure is not caught: nothing is
  printed on the standard output and the process exits with status 1.
\<close>

theorem open_failure_outcome:
  assumes "open_rb fs file_path = Inl e"
  shows "script_run fs [script, file_path] =
         Some (if e = FileNotFoundError
               then ([''Error: File '' @ [apostrophe] @ file_path @ [apostrophe] @ '' not found''], 0)
               else ([], 1))"
  using print_u32_values_open_fails [OF assms]
  by (cases e) (simp_all add: script_run_def main_one_path except_FileNotFoundError_def)

theorem open_failure_outcome_witness:
  "open_rb Map.empty ''missing.idx'' = Inl FileNotFoundError
   \<and> script_run Map.empty [''print_idx_file.py'', ''missing.idx'']
       = Some ([''Error: File '' @ [CHR 0x27] @ ''missing.idx'' @ [CHR 0x27] @ '' not found''], 0)
   \<and> open_rb [''data'' \<mapsto> Directory] ''data'' = Inl IsADirectoryError
   \<and> script_run [''data'' \<mapsto> Directory] [''print_idx_file.py'', ''data''] = Some ([], 1)"
  using open_failure_outcome
      [of Map.empty "''missing.idx''" FileNotFoundError "''print_idx_file.py''"]
    open_failure_outcome
      [of "[''data'' \<mapsto> Directory]" "''data''" IsADirectoryError "''print_idx_file.py''"]
  by (simp add: open_rb_def apostrophe_def char_of_def bit_Suc_0_iff)

section \<open>The usage branch\<close>

text \<open>
  C6. With a number of arguments other than one, the script should print a usage message
  and exit with a non-zero status without touching any file. The branch starts by calling
  \<^verbatim>\<open>os.path.basename\<close>, and \<^verbatim>\<open>os\<close> is never imported: the run ends with an uncaught
  \<^verbatim>\<open>NameError\<close> before anything is printed. Evaluated for the script called with no
  argument.
\<close>

theorem usage_branch_raises_NameError:
  "main Map.empty [''print_idx_file.py''] = Some ([], Uncaught (NameError ''os''))
   \<and> script_run Map.empty [''print_idx_file.py''] = Some ([], 1)"
  by (simp add: script_run_def usage_branch)

section \<open>Where errors are reported\<close>

text \<open>
  C7, as stated, says that every error ends in one line on the error stream and a failure
  exit status. A file with one complete record and two further bytes is reported on the
  standard output, after the record line, and the exit status is 0.
\<close>

theorem error_stream_and_failure_status_counterexample:
  "script_run [''t.idx'' \<mapsto> RegularFile [1, 0, 0, 0, 2, 0, 0, 0, 65, 66]]
     [''print_idx_file.py'', ''t.idx'']
     = Some ([''1 : 2'', ''Incomplete chunk: b'' @ [CHR 0x27] @ ''AB'' @ [CHR 0x27]], 0)"
proof -
  have "print_u32_values [''t.idx'' \<mapsto> RegularFile [1, 0, 0, 0, 2, 0, 0, 0, 65, 66]] ''t.idx''
     = Some ([''1 : 2'', ''Incomplete chunk: b'' @ [CHR 0x27] @ ''AB'' @ [CHR 0x27]], Inr ())"
    using print_u32_values_lines
      [of "[''t.idx'' \<mapsto> RegularFile [1, 0, 0, 0, 2, 0, 0, 0, 65, 66]]" "''t.idx''"
          "[1, 0, 0, 0, 2, 0, 0, 0, 65, 66]"]
    by (simp add: eval_defs repr_defs)
  then show ?thesis
    by (rule script_run_returns)
qed

text \<open>
  C7, amended. For every run with one path argument, whatever the path names. A missing
  file is reported by one line on the standard output; a file with a short last chunk by
  one line on the standard output, after the record lines already printed; in both cases,
  as for a well-formed file, no exception reaches the top level and the script runs to its
  end, which is exit status 0. Any other failure to open the file (a directory, a file that
  may not be read) is not caught: the exception reaches the top level, nothing is printed
  on the standard output and the process exits with status 1.
\<close>

theorem one_argument_run_outcome:
  "main fs [script, file_path] =
     Some (case fs file_path of
             None \<Rightarrow>
               ([''Error: File '' @ [apostrophe] @ file_path @ [apostrophe] @ '' not found''],
                Returned)
           | Some (RegularFile bs) \<Rightarrow>
               (map (\<lambda>k. str_int (le_u32 (take 4 (drop (8 * k) bs))) @ '' : '' @
                           str_int (le_u32 (take 4 (drop (8 * k + 4) bs))))
                  [0..<length bs div 8]
                @ (if length bs mod 8 = 0 then []
                   else [''Incomplete chunk: '' @ bytes_repr (drop (8 * (length bs div 8)) bs)]),
                Returned)
           | Some Directory \<Rightarrow> ([], Uncaught IsADirectoryError)
           | Some Unreadable \<Rightarrow> ([], Uncaught PermissionError))
   \<and> exit_status Returned = 0
   \<and> exit_status (Uncaught IsADirectoryError) = 1
   \<and> exit_status (Uncaught PermissionError) = 1"
proof -
  have "main fs [script, file_path] =
     Some (case fs file_path of
             None \<Rightarrow>
               ([''Error: File '' @ [apostrophe] @ file_path @ [apostrophe] @ '' not found''],
                Returned)
           | Some (RegularFile bs) \<Rightarrow>
               (map (\<lambda>k. str_int (le_u32 (take 4 (drop (8 * k) bs))) @ '' : '' @
                           str_int (le_u32 (take 4 (drop (8 * k + 4) bs))))
                  [0..<length bs div 8]
                @ (if length bs mod 8 = 0 then []
                   else [''Incomplete chunk: '' @ bytes_repr (drop (8 * (length bs div 8)) bs)]),
                Returned)
           | Some Directory \<Rightarrow> ([], Uncaught IsADirectoryError)
           | Some Unreadable \<Rightarrow> ([], Uncaught PermissionError))"
  proof (cases "fs file_path")
    case None
    then have "open_rb fs file_path = Inl FileNotFoundError"
      by (simp add: open_rb_def)
    then have "print_u32_values fs file_path =
        Some ([''Error: File '' @ [apostrophe] @ file_path @ [apostrophe] @ '' not found''], Inr ())"
      by (simp add: print_u32_values_open_fails except_FileNotFoundError_def)
    then have "main fs [script, file_path] =
        Some ([''Error: File '' @ [apostrophe] @ file_path @ [apostrophe] @ '' not found''], Returned)"
      by (rule script_run_returns)
    with None show ?thesis by simp
  next
    case (Some entry)
    show ?thesis
    proof (cases entry)
      case (RegularFile bs)
      with Some have reg: "fs file_path = Some (RegularFile bs)" by simp
      have "main fs [script, file_path] =
        Some (map (\<lambda>k. str_int (le_u32 (take 4 (drop (8 * k) bs))) @ '' : '' @
                        str_int (le_u32 (take 4 (drop (8 * k + 4) bs))))
                [0..<length bs div 8]
              @ (if length bs mod 8 = 0 then []
                 else [''Incomplete chunk: '' @ bytes_repr (drop (8 * (length bs div 8)) bs)]),
              Returned)"
        by (rule script_run_returns (1) [OF print_u32_values_lines [of fs file_path bs, OF reg]])
      with reg show ?thesis by simp
    next
      case Directory
      with Some have "open_rb fs file_path = Inl IsADirectoryError"
        by (simp add: open_rb_def)
      then have "print_u32_values fs file_path = Some ([], Inl IsADirectoryError)"
        by (simp add: print_u32_values_open_fails except_FileNotFoundError_def)
      with Some Directory show ?thesis
        by (simp add: main_one_path)
    next
      case Unreadable
      with Some have "open_rb fs file_path = Inl PermissionError"
        by (simp add: open_rb_def)
      then have "print_u32_values fs file_path = Some ([], Inl PermissionError)"
        by (simp add: print_u32_values_open_fails except_FileNotFoundError_def)
      with Some Unreadable show ?thesis
        by (simp add: main_one_path)
    qed
  qed
  then show ?thesis by simp
qed

theorem one_argument_run_outcome_witness:
  "main Map.empty [''print_idx_file.py'', ''missing.idx'']
       = Some ([''Error: File '' @ [CHR 0x27] @ ''missing.idx'' @ [CHR 0x27] @ '' not found''],
               Returned)
   \<and> main [''t.idx'' \<mapsto> RegularFile [1, 0, 0, 0, 2, 0, 0, 0, 65]] [''print_idx_file.py'', ''t.idx'']
       = Some ([''1 : 2'', ''Incomplete chunk: b'' @ [CHR 0x27] @ ''A'' @ [CHR 0x27]], Returned)
   \<and> main [''data'' \<mapsto> Directory] [''print_idx_file.py'', ''data'']
       = Some ([], Uncaught IsADirectoryError)
   \<and> main [''locked.idx'' \<mapsto> Unreadable] [''print_idx_file.py'', ''locked.idx'']
       = Some ([], Uncaught PermissionError)"
  using one_argument_run_outcome [of Map.empty "''print_idx_file.py''" "''missing.idx''"]
    one_argument_run_outcome
      [of "[''t.idx'' \<mapsto> RegularFile [1, 0, 0, 0, 2, 0, 0, 0, 65]]" "''print_idx_file.py''" "''t.idx''"]
    one_argument_run_outcome [of "[''data'' \<mapsto> Directory]" "''print_idx_file.py''" "''data''"]
    one_argument_run_outcome
      [of "[''locked.idx'' \<mapsto> Unreadable]" "''print_idx_file.py''" "''locked.idx''"]
  by (simp add: eval_defs repr_defs)

end
